theory Spec2Isabelle
  imports Main "HOL-Library.Sublist" "HOL-Library.Multiset"
begin

section \<open>JavaScript strings and regular expressions, as far as index.js uses them\<close>

text \<open>
  A JavaScript string is a sequence of code units. It is modelled as a \<open>string\<close>: every
  character that a pattern of index.js names is ASCII, and any other code unit falls
  outside every class and literal of those patterns. Code units above 255 (among them the
  line terminators U+2028 and U+2029) have no counterpart in \<open>char\<close>.
\<close>

text \<open>
  The regular expressions of index.js are sequences of single-character atoms (a literal,
  a bracket class, the dot), each possibly under a greedy quantifier, the two line
  anchors, and at most one capture group that is not itself quantified.
\<close>

datatype atom =
    Lit char
  | Class "(char \<times> char) list"
  | Dot

datatype item =
    One atom
  | Rep nat "nat option" atom
  | Bol
  | Eol

text \<open>Line terminators of the regular expression grammar: LF and CR.\<close>

definition is_line_terminator :: "char \<Rightarrow> bool" where
  "is_line_terminator c \<longleftrightarrow> c = CHR 0x0A \<or> c = CHR 0x0D"

fun in_range :: "char \<Rightarrow> char \<times> char \<Rightarrow> bool" where
  "in_range c (lo, hi) \<longleftrightarrow> (of_char lo :: nat) \<le> of_char c \<and> (of_char c :: nat) \<le> of_char hi"

fun atom_ok :: "atom \<Rightarrow> char \<Rightarrow> bool" where
  "atom_ok (Lit a) c \<longleftrightarrow> c = a"
| "atom_ok (Class rs) c \<longleftrightarrow> list_ex (in_range c) rs"
| "atom_ok Dot c \<longleftrightarrow> \<not> is_line_terminator c"

text \<open>
  The backtracking matcher. \<open>m_items is p s\<close> matches the items \<open>is\<close> at the head of \<open>s\<close>,
  where \<open>p\<close> is the character before \<open>s\<close> in the text (\<open>None\<close> at the start of the text).
  It returns every way to match, as the pair of the last character before the remainder
  and the remainder, in the order in which a backtracking engine tries them: a greedy
  quantifier first takes one more character, and only then stops.
  \<open>Rep lo hi a\<close> is \<open>a{lo,hi}\<close>; \<open>hi = None\<close> is no upper bound, so that \<open>a+\<close> is
  \<open>Rep 1 None a\<close> and \<open>a*\<close> is \<open>Rep 0 None a\<close>.
  With the flag \<open>m\<close>, \<open>^\<close> holds at the start of the text and after a line terminator, and
  \<open>$\<close> at the end of the text and before a line terminator; \<open>multiline\<close> is that flag.
\<close>

fun m_items :: "bool \<Rightarrow> item list \<Rightarrow> char option \<Rightarrow> string \<Rightarrow> (char option \<times> string) list" where
  "m_items ml [] p s = [(p, s)]"
| "m_items ml (One a # is) p [] = []"
| "m_items ml (One a # is) p (c # cs) = (if atom_ok a c then m_items ml is (Some c) cs else [])"
| "m_items ml (Bol # is) p s =
     (if (case p of None \<Rightarrow> True | Some c \<Rightarrow> ml \<and> is_line_terminator c)
      then m_items ml is p s else [])"
| "m_items ml (Eol # is) p s =
     (if (case s of [] \<Rightarrow> True | c # _ \<Rightarrow> ml \<and> is_line_terminator c)
      then m_items ml is p s else [])"
| "m_items ml (Rep lo hi a # is) p [] = (if lo = 0 then m_items ml is p [] else [])"
| "m_items ml (Rep lo hi a # is) p (c # cs) =
     (if atom_ok a c \<and> hi \<noteq> Some 0
      then m_items ml (Rep (lo - 1) (map_option (\<lambda>h. h - 1) hi) a # is) (Some c) cs else [])
     @ (if lo = 0 then m_items ml is p (c # cs) else [])"

text \<open>
  A regular expression: the items before the capture group, the items of the group
  (\<open>None\<close> when the expression has no group), the items after it, and the flag \<open>m\<close>.
\<close>

record regex =
  before :: "item list"
  group :: "item list option"
  after :: "item list"
  multiline :: bool

text \<open>
  The match array of JavaScript: \<open>m_pre\<close> is the text before the match (its length is
  \<open>index\<close>), \<open>m_whole\<close> is element 0, \<open>m_group\<close> is element 1 (\<open>None\<close> when the expression
  has no group), \<open>m_post\<close> is the text after the match.
\<close>

record rmatch =
  m_pre :: string
  m_whole :: string
  m_group :: "string option"
  m_post :: string

text \<open>All matches that start at the head of \<open>s\<close>, first the one the engine returns.\<close>

definition match_here :: "regex \<Rightarrow> string \<Rightarrow> string \<Rightarrow> rmatch list" where
  "match_here rx pre s =
     (let p = (if pre = [] then None else Some (last pre)) in
      concat (map (\<lambda>(p1, r1).
        concat (map (\<lambda>(p2, r2).
          map (\<lambda>(p3, r3).
            \<lparr> m_pre = pre,
              m_whole = take (length s - length r3) s,
              m_group = (case group rx of None \<Rightarrow> None
                         | Some _ \<Rightarrow> Some (take (length r1 - length r2) r1)),
              m_post = r3 \<rparr>)
            (m_items (multiline rx) (after rx) p2 r2))
          (case group rx of None \<Rightarrow> [(p1, r1)]
           | Some g \<Rightarrow> m_items (multiline rx) g p1 r1)))
        (m_items (multiline rx) (before rx) p s)))"

text \<open>
  \<open>RegExp.prototype.exec\<close> without the flags \<open>g\<close> and \<open>y\<close>: the start positions are tried
  from the left, \<open>pre\<close> being the text already passed; the first position with a match
  wins.
\<close>

fun search :: "regex \<Rightarrow> string \<Rightarrow> string \<Rightarrow> rmatch option" where
  "search rx pre [] = (case match_here rx pre [] of [] \<Rightarrow> None | m # _ \<Rightarrow> Some m)"
| "search rx pre (c # cs) =
     (case match_here rx pre (c # cs) of
        [] \<Rightarrow> search rx (pre @ [c]) cs
      | m # _ \<Rightarrow> Some m)"

text \<open>\<open>text.match(rx)\<close> and \<open>rx.test(text)\<close> for an expression without the flag \<open>g\<close>.\<close>

definition js_match :: "string \<Rightarrow> regex \<Rightarrow> rmatch option" where
  "js_match text rx = search rx [] text"

definition js_test :: "regex \<Rightarrow> string \<Rightarrow> bool" where
  "js_test rx text \<longleftrightarrow> js_match text rx \<noteq> None"

section \<open>extractTokenInfo\<close>

datatype field = tokenName | ca | price | mc | holders | top10

definition lits :: "string \<Rightarrow> item list" where
  "lits s = map (\<lambda>c. One (Lit c)) s"

definition alnum :: atom where
  "alnum = Class [(CHR ''a'', CHR ''z''), (CHR ''A'', CHR ''Z''), (CHR ''0'', CHR ''9'')]"

definition digit_range :: "char \<times> char" where
  "digit_range = (CHR ''0'', CHR ''9'')"

definition single :: "char \<Rightarrow> char \<times> char" where
  "single c = (c, c)"

text \<open>
  The object \<open>patterns\<close>, one entry per key. In the source:
  \<^verbatim>\<open>tokenName: /\$([a-zA-Z0-9]+)/\<close>,
  \<^verbatim>\<open>ca: /`([a-zA-Z0-9]{32,44})`/\<close>,
  \<^verbatim>\<open>price: /\*\*Price:\*\* ([\$\d\.,]+)/\<close>,
  \<^verbatim>\<open>mc: /\*\*Market Cap:\*\* ([\$\d\.,kM]+)/\<close>,
  \<^verbatim>\<open>holders: /\*\*Holders:\*\* (\d+)/\<close>,
  \<^verbatim>\<open>top10: /\*\*Top10:\*\* ([\d\.]+%)/\<close>.
  Without the flag \<open>u\<close>, \<open>\d\<close> is the class of the ten ASCII digits.
\<close>

fun patterns :: "field \<Rightarrow> regex" where
  "patterns tokenName =
     \<lparr> before = lits ''$'', group = Some [Rep 1 None alnum], after = [], multiline = False \<rparr>"
| "patterns ca =
     \<lparr> before = lits ''`'', group = Some [Rep 32 (Some 44) alnum], after = lits ''`'',
       multiline = False \<rparr>"
| "patterns price =
     \<lparr> before = lits ''**Price:** '',
       group = Some [Rep 1 None
         (Class [single CHR ''$'', digit_range, single CHR ''.'', single CHR '',''])],
       after = [], multiline = False \<rparr>"
| "patterns mc =
     \<lparr> before = lits ''**Market Cap:** '',
       group = Some [Rep 1 None
         (Class [single CHR ''$'', digit_range, single CHR ''.'', single CHR '','',
                 single CHR ''k'', single CHR ''M''])],
       after = [], multiline = False \<rparr>"
| "patterns holders =
     \<lparr> before = lits ''**Holders:** '',
       group = Some [Rep 1 None (Class [digit_range])],
       after = [], multiline = False \<rparr>"
| "patterns top10 =
     \<lparr> before = lits ''**Top10:** '',
       group = Some [Rep 1 None (Class [digit_range, single CHR ''.'']), One (Lit CHR ''%'')],
       after = [], multiline = False \<rparr>"

text \<open>The keys of \<open>patterns\<close> in the order in which \<open>for (const key in patterns)\<close> visits them.\<close>

definition pattern_keys :: "field list" where
  "pattern_keys = [tokenName, ca, price, mc, holders, top10]"

text \<open>
  \<open>match && match[1]\<close>: the capture that the loop body stores, or \<open>None\<close> where the body
  returns null (no match, or an empty first capture, which is falsy).
\<close>

definition capture :: "regex \<Rightarrow> string \<Rightarrow> string option" where
  "capture rx text =
     (case js_match text rx of
        None \<Rightarrow> None
      | Some m \<Rightarrow> (case m_group m of
                    None \<Rightarrow> None
                  | Some g \<Rightarrow> if g = [] then None else Some g))"

text \<open>
  The loop of extractTokenInfo over a list of keys; \<open>extracted\<close> is the object under
  construction, a map from keys to strings. The first key whose pattern gives no capture
  ends the function with null (\<open>None\<close>).
\<close>

fun extract_loop :: "field list \<Rightarrow> string \<Rightarrow> (field \<rightharpoonup> string) \<Rightarrow> (field \<rightharpoonup> string) option" where
  "extract_loop [] text extracted = Some extracted"
| "extract_loop (key # keys) text extracted =
     (case capture (patterns key) text of
        Some v \<Rightarrow> extract_loop keys text (extracted(key \<mapsto> v))
      | None \<Rightarrow> None)"

definition extractTokenInfo :: "string \<Rightarrow> (field \<rightharpoonup> string) option" where
  "extractTokenInfo text = extract_loop pattern_keys text Map.empty"

text \<open>
  The bold label of each labelled pattern, as it stands in the source of the expression
  before the space that precedes the value. The patterns for the token symbol and the
  contract address carry no label.
\<close>

fun label :: "field \<Rightarrow> string" where
  "label price = ''**Price:**''"
| "label mc = ''**Market Cap:**''"
| "label holders = ''**Holders:**''"
| "label top10 = ''**Top10:**''"
| "label tokenName = []"
| "label ca = []"

definition labelled :: "field \<Rightarrow> bool" where
  "labelled k \<longleftrightarrow> k = price \<or> k = mc \<or> k = holders \<or> k = top10"

section \<open>Effects\<close>

text \<open>
  The calls that the script makes to the outside world, in the order made. What the
  outside world answers (the clock, whether a file operation succeeds, the reply to a
  request) is an argument of the function that makes the call. Of a call to
  \<open>console.error\<close> or \<open>console.log\<close> the string arguments are kept; an error object
  passed along is not.
\<close>

record embed =
  color :: nat
  author_name :: string
  title :: string
  description :: string
  embed_fields :: "(string \<times> string \<times> bool) list"
  timestamp :: string

datatype event =
    HttpGet string nat
  | HttpPost string "embed list"
  | AppendFile string string
  | ReadFile string
  | WriteFile string string
  | ConsoleError "string list"
  | ConsoleLog "string list"
  | Exit nat

text \<open>How a function body ends: with a value, or with an exception (its message).\<close>

datatype 'a completion = Return 'a | Throw string

definition LOG_FILE :: string where
  "LOG_FILE = ''messages.log''"

text \<open>
  What one call of logToFile reads from the outside world: the clock, as
  \<open>new Date().toISOString()\<close> renders it, and whether \<open>fs.appendFileSync\<close> succeeds.
\<close>

record io =
  now :: string
  append_ok :: bool

definition logToFile :: "io \<Rightarrow> string \<Rightarrow> event list" where
  "logToFile w message =
     (let logEntry = ''['' @ now w @ ''] '' @ message @ [CHR 0x0A] in
      AppendFile LOG_FILE logEntry
        # (if append_ok w then [] else [ConsoleError [''Error writing to log file:'']]))"

section \<open>getPairAddress\<close>

text \<open>
  The body that the lookup service returns, with the shape that the script reads: an
  optional \<open>pairs\<close> array of objects with a \<open>pairAddress\<close>. \<open>None\<close> is an absent (null or
  undefined) \<open>data\<close> or \<open>pairs\<close>.
\<close>

record pair_entry =
  pairAddress :: string

record dex_data =
  pairs :: "pair_entry list option"

record response =
  data :: "dex_data option"

text \<open>
  What happens to the GET request. axios resolves the promise for a status in the 2xx
  range and rejects it otherwise; the string is the \<open>message\<close> of the error it rejects
  with.
\<close>

datatype reply =
    Ok2xx response
  | Non2xx nat string
  | Timeout string
  | NetworkError string

fun axios_result :: "reply \<Rightarrow> response completion" where
  "axios_result (Ok2xx r) = Return r"
| "axios_result (Non2xx status msg) = Throw msg"
| "axios_result (Timeout msg) = Throw msg"
| "axios_result (NetworkError msg) = Throw msg"

definition search_url :: "string \<Rightarrow> string" where
  "search_url tokenAddress = ''https://api.dexscreener.com/latest/dex/search?q='' @ tokenAddress"

text \<open>The \<open>try\<close> block of getPairAddress; null is \<open>None\<close>.\<close>

definition getPairAddress_try ::
  "string \<Rightarrow> reply \<Rightarrow> io \<Rightarrow> string option completion \<times> event list" where
  "getPairAddress_try tokenAddress rep w =
     (let url = search_url tokenAddress in
      case axios_result rep of
        Throw msg \<Rightarrow> (Throw msg, [HttpGet url 10000])
      | Return response \<Rightarrow>
          (case Option.bind (data response) pairs of
             Some (p # ps) \<Rightarrow>
               (Return (Some (pairAddress p)),
                HttpGet url 10000
                  # logToFile w (''Found pair address for '' @ tokenAddress @ '': '' @ pairAddress p))
           | _ \<Rightarrow>
               (Return None,
                HttpGet url 10000
                  # logToFile w (''No pairs found for token: '' @ tokenAddress))))"

text \<open>The whole function: the \<open>catch\<close> block handles what the \<open>try\<close> block throws.\<close>

definition getPairAddress ::
  "string \<Rightarrow> reply \<Rightarrow> io \<Rightarrow> string option completion \<times> event list" where
  "getPairAddress tokenAddress rep w =
     (case getPairAddress_try tokenAddress rep w of
        (Throw msg, evs) \<Rightarrow>
          (Return None,
           evs @ ConsoleError [''Error fetching pair address from DexScreener:'', msg]
             # logToFile w (''API Error fetching pair address: '' @ msg))
      | (Return v, evs) \<Rightarrow> (Return v, evs))"

section \<open>sendToDiscord\<close>

text \<open>
  The string literals of sendToDiscord hold characters outside ASCII (the separator of
  the links and four icons). They are taken as they are, as arguments.
\<close>

record decor =
  bullet :: string
  sparkles :: string
  coin :: string
  chart :: string
  link :: string

definition padEnd :: "string \<Rightarrow> nat \<Rightarrow> char \<Rightarrow> string" where
  "padEnd str n c = str @ replicate (n - length str) c"

definition pad :: "string \<Rightarrow> string" where
  "pad str = padEnd str 11 CHR '' ''"

fun join :: "string \<Rightarrow> string list \<Rightarrow> string" where
  "join sep [] = []"
| "join sep [x] = x"
| "join sep (x # y # ys) = x @ sep @ join sep (y # ys)"

text \<open>A property of \<open>info\<close> inside a template literal: an absent one reads \<open>undefined\<close>.\<close>

definition field_text :: "(field \<rightharpoonup> string) \<Rightarrow> field \<Rightarrow> string" where
  "field_text info k = (case info k of None \<Rightarrow> ''undefined'' | Some v \<Rightarrow> v)"

definition backtick :: string where
  "backtick = [CHR 0x60]"

definition make_embed :: "decor \<Rightarrow> (field \<rightharpoonup> string) \<Rightarrow> string \<Rightarrow> string \<Rightarrow> embed" where
  "make_embed d info pairAddr stamp =
     (let statsValue = join [CHR 0x0A]
            [backtick @ pad ''Price'' @ backtick @ '' '' @ field_text info price,
             backtick @ pad ''Market Cap'' @ backtick @ '' '' @ field_text info mc,
             backtick @ pad ''Holders'' @ backtick @ '' '' @ field_text info holders,
             backtick @ pad ''Top 10'' @ backtick @ '' '' @ field_text info top10];
          linksValue = join ('' '' @ bullet d @ '' '')
            [''[Axiom](https://axiom.trade/meme/'' @ pairAddr @ ''/@gravy)'',
             ''[DexScreener](https://dexscreener.com/solana/'' @ field_text info ca @ '')'',
             ''[Solscan](https://solscan.io/token/'' @ field_text info ca @ '')'']
      in \<lparr> color = 0x9046ff,
           author_name = sparkles d @ '' TRADE SIGNAL '' @ sparkles d,
           title = coin d @ '' **$'' @ field_text info tokenName @ ''**'',
           description = backtick @ backtick @ backtick @ field_text info ca
                           @ backtick @ backtick @ backtick,
           embed_fields = [(chart d @ '' Token Stats'', statsValue, False),
                           (link d @ '' Quick Links'', linksValue, False)],
           timestamp = stamp \<rparr>)"

text \<open>
  sendToDiscord. \<open>info\<close> and \<open>pairAddress\<close> are \<open>None\<close> when null or undefined; the guard
  is on falsy values, so that the empty string stops the function too. \<open>webhook\<close> is
  \<open>discordWebhookUrl\<close>, \<open>stamp\<close> the clock read for the embed, \<open>post\<close> the outcome of the
  POST request (\<open>None\<close>: resolved, \<open>Some msg\<close>: rejected with that message).
\<close>

definition sendToDiscord ::
  "decor \<Rightarrow> string \<Rightarrow> (field \<rightharpoonup> string) option \<Rightarrow> string option \<Rightarrow> string \<Rightarrow> string option \<Rightarrow> io
     \<Rightarrow> unit completion \<times> event list" where
  "sendToDiscord d webhook info pairAddr stamp post w =
     (case info of
        None \<Rightarrow> (Return (), [])
      | Some i \<Rightarrow>
          (case pairAddr of
             None \<Rightarrow> (Return (), [])
           | Some pa \<Rightarrow>
               if pa = [] then (Return (), [])
               else
                 (Return (),
                  HttpPost webhook [make_embed d i pa stamp]
                    # (case post of
                         None \<Rightarrow> logToFile w ''Successfully forwarded embed to Discord.''
                       | Some msg \<Rightarrow>
                           ConsoleError [''Error sending embed to Discord:'', msg]
                             # logToFile w (''DISCORD ERROR: '' @ ''Error sending embed to Discord:''
                                             @ '' '' @ msg)))))"

section \<open>updateEnvFile\<close>

text \<open>
  \<open>new RegExp(`^${key}=.*$`, "m")\<close> reads the key as part of the source of the
  expression. The characters that the grammar of regular expressions sets apart
  (SyntaxCharacter) are the ones below. A key free of them stands for itself, character
  by character, and the expression built is \<open>key_expression key\<close>. A key that holds one
  of them is compiled as a pattern of its own, or rejected with a SyntaxError; neither is
  modelled, and \<open>keyRegex\<close> is \<open>None\<close> for such a key. The script calls updateEnvFile with
  the key \<open>SESSION\<close>.
\<close>

definition syntax_characters :: string where
  "syntax_characters = ''^$.*+?()[]{}|'' @ [CHR 0x5C]"

definition plain_key :: "string \<Rightarrow> bool" where
  "plain_key key \<longleftrightarrow> list_all (\<lambda>c. c \<notin> set syntax_characters) key"

definition key_expression :: "string \<Rightarrow> regex" where
  "key_expression key =
     \<lparr> before = Bol # lits (key @ ''='') @ [Rep 0 None Dot, Eol],
       group = None, after = [], multiline = True \<rparr>"

definition keyRegex :: "string \<Rightarrow> regex option" where
  "keyRegex key = (if plain_key key then Some (key_expression key) else None)"

text \<open>
  The replacement text of \<open>String.prototype.replace\<close> for a replacement given as a
  string (GetSubstitution), for an expression without capture groups, the only kind that the
  script replaces with: \<open>$$\<close> is a dollar sign, \<open>$&\<close> the matched text, \<open>$`\<close> the text
  before the match, \<open>$'\<close> the text after it; a dollar sign before anything else stands for
  itself, as no group exists that digits or a name could refer to.
\<close>

fun get_substitution :: "rmatch \<Rightarrow> string \<Rightarrow> string" where
  "get_substitution m [] = []"
| "get_substitution m [c] = [c]"
| "get_substitution m (c # d # t) =
     (if c = CHR ''$'' then
        (if d = CHR ''$'' then CHR ''$'' # get_substitution m t
         else if d = CHR ''&'' then m_whole m @ get_substitution m t
         else if d = CHR 0x60 then m_pre m @ get_substitution m t
         else if d = CHR 0x27 then m_post m @ get_substitution m t
         else c # get_substitution m (d # t))
      else c # get_substitution m (d # t))"

text \<open>\<open>text.replace(rx, replacement)\<close> for an expression without the flag \<open>g\<close>.\<close>

definition js_replace :: "string \<Rightarrow> regex \<Rightarrow> string \<Rightarrow> string" where
  "js_replace text rx replacement =
     (case js_match text rx of
        None \<Rightarrow> text
      | Some m \<Rightarrow> m_pre m @ get_substitution m replacement @ m_post m)"

text \<open>
  The new value of \<open>envContent\<close>: the \<open>if\<close> statement in the middle of updateEnvFile.
  \<open>None\<close> for a key that holds a syntax character, for which the expression is not
  modelled.
\<close>

definition update_content :: "string \<Rightarrow> string \<Rightarrow> string \<Rightarrow> string option" where
  "update_content key val envContent =
     (case keyRegex key of
        None \<Rightarrow> None
      | Some rx \<Rightarrow>
          Some (if js_test rx envContent
                then js_replace envContent rx (key @ ''='' @ val)
                else envContent @ [CHR 0x0A] @ key @ ''='' @ val))"

text \<open>
  A position is at the start of a line, where \<open>^\<close> holds under the flag \<open>m\<close>, when the
  text before it is empty or ends with a line terminator.
\<close>

definition line_start :: "string \<Rightarrow> bool" where
  "line_start pre \<longleftrightarrow> pre = [] \<or> is_line_terminator (last pre)"

text \<open>
  updateEnvFile. \<open>file\<close> is what \<open>fs.readFileSync\<close> returns, \<open>None\<close> when it throws;
  \<open>write_ok\<close> tells whether \<open>fs.writeFileSync\<close> succeeds. Both failures end in the
  \<open>catch\<close> block. The file is read before the expression is built, so that a failed read
  ends the same way for every key; after a successful read the result is \<open>None\<close> for a
  key that holds a syntax character (not modelled).
\<close>

definition updateEnvFile ::
  "string \<Rightarrow> string \<Rightarrow> string option \<Rightarrow> bool \<Rightarrow> event list option" where
  "updateEnvFile key val file write_ok =
     (let envPath = ''.env'';
          failed = [ConsoleError [''Error updating .env file:''],
                    ConsoleLog [[CHR 0x0A] @ ''Please manually add this line to your .env file:''
                                  @ [CHR 0x0A] @ key @ ''='' @ val @ [CHR 0x0A]]]
      in case file of
           None \<Rightarrow> Some (ReadFile envPath # failed)
         | Some envContent \<Rightarrow>
             (case update_content key val envContent of
                None \<Rightarrow> None
              | Some newContent \<Rightarrow>
                  Some (ReadFile envPath # WriteFile envPath newContent
                          # (if write_ok
                             then [ConsoleLog [''Successfully updated '' @ key
                                                 @ '' in .env file.'']]
                             else failed))))"

section \<open>Reading the configuration at startup\<close>

text \<open>\<open>process.env\<close>, as far as the script reads it; \<open>None\<close> is an unset variable.\<close>

record process_env =
  API_ID :: "string option"
  API_HASH :: "string option"
  SESSION :: "string option"
  TARGET_CHAT_USERNAME :: "string option"
  DISCORD_WEBHOOK_URL :: "string option"

text \<open>
  The integer that \<open>parseInt(string, 10)\<close> reads: the argument is turned into a string
  (\<open>undefined\<close> for an unset variable), leading white space and one sign are dropped, and
  the longest run of decimal digits that follows is read, with the sign. With no digit
  there is no integer (\<open>None\<close>), and parseInt returns NaN.
\<close>

definition to_string :: "string option \<Rightarrow> string" where
  "to_string v = (case v of None \<Rightarrow> ''undefined'' | Some s \<Rightarrow> s)"

definition is_white_space :: "char \<Rightarrow> bool" where
  "is_white_space c \<longleftrightarrow>
     c = CHR 0x09 \<or> c = CHR 0x0B \<or> c = CHR 0x0C \<or> c = CHR 0x20 \<or> c = CHR 0xA0
     \<or> is_line_terminator c"

definition is_digit :: "char \<Rightarrow> bool" where
  "is_digit c \<longleftrightarrow> in_range c digit_range"

definition digits_value :: "string \<Rightarrow> int" where
  "digits_value z = foldl (\<lambda>n c. 10 * n + (of_char c - 48)) 0 z"

definition parseInt10 :: "string option \<Rightarrow> int option" where
  "parseInt10 v =
     (let s = dropWhile is_white_space (to_string v);
          sign = (case s of c # _ \<Rightarrow> if c = CHR ''-'' then - 1 else 1 | [] \<Rightarrow> 1);
          s' = (case s of c # r \<Rightarrow> if c = CHR ''-'' \<or> c = CHR ''+'' then r else s | [] \<Rightarrow> s);
          z = takeWhile is_digit s'
      in if z = [] then None else Some (sign * digits_value z))"

text \<open>
  The Number that parseInt returns is the double nearest to the integer read, ties going
  to the even significand, and an infinity from \<open>2 ^ 1024 - 2 ^ 970\<close> on. The finite
  doubles that are integers are kept as integers. The sign of zero is not kept: \<open>-0\<close> is
  \<open>Finite 0\<close>, and both are falsy. (For more than twenty significant digits the standard
  lets an engine read an approximation of the integer instead.)
\<close>

datatype number = NaN | Finite int | PosInfinity | NegInfinity

function bit_length :: "int \<Rightarrow> nat" where
  "bit_length n = (if n \<le> 0 then 0 else Suc (bit_length (n div 2)))"
  by pat_completeness auto
termination
  by (relation "measure nat") auto

declare bit_length.simps [simp del]

definition round_to_double :: "int \<Rightarrow> int option" where
  "round_to_double n =
     (let l = bit_length n in
      if l \<le> 53 then Some n
      else
        (let e = l - 53;
             q = n div 2 ^ e;
             r = n mod 2 ^ e;
             h = 2 ^ (e - 1);
             q' = (if h < r \<or> (r = h \<and> odd q) then q + 1 else q);
             v = q' * 2 ^ e
         in if 2 ^ 1024 \<le> v then None else Some v))"

definition to_number :: "int \<Rightarrow> number" where
  "to_number i =
     (case round_to_double \<bar>i\<bar> of
        None \<Rightarrow> if i < 0 then NegInfinity else PosInfinity
      | Some v \<Rightarrow> Finite (if i < 0 then - v else v))"

text \<open>\<open>parseInt(string, 10)\<close>.\<close>

definition parseInt :: "string option \<Rightarrow> number" where
  "parseInt v = (case parseInt10 v of None \<Rightarrow> NaN | Some i \<Rightarrow> to_number i)"

record config =
  apiId :: number
  apiHash :: string
  session :: string
  targetChatUsername :: string
  discordWebhookUrl :: string

definition config_error :: string where
  "config_error =
     ''Error: API_ID, API_HASH, TARGET_CHAT_USERNAME, and DISCORD_WEBHOOK_URL must be set in the .env file.''"

text \<open>
  Lines 9 to 20 of index.js. A value is falsy when it is NaN, zero, undefined or the
  empty string. \<open>new StringSession\<close> belongs to the client library; of the session only
  the string handed to it is kept. With the configuration complete the script goes on
  (\<open>Some\<close> of the values read); otherwise it prints the message and calls
  \<open>process.exit(1)\<close>.
\<close>

definition startup :: "process_env \<Rightarrow> config option \<times> event list" where
  "startup env =
     (let apiId = parseInt (API_ID env);
          stop = (None, [ConsoleError [config_error], Exit 1])
      in case (API_HASH env, TARGET_CHAT_USERNAME env, DISCORD_WEBHOOK_URL env) of
           (Some h, Some t, Some u) \<Rightarrow>
             if apiId = NaN \<or> apiId = Finite 0 \<or> h = [] \<or> t = [] \<or> u = [] then stop
             else (Some \<lparr> apiId = apiId, apiHash = h,
                          session = (case SESSION env of None \<Rightarrow> [] | Some s \<Rightarrow> s),
                          targetChatUsername = t, discordWebhookUrl = u \<rparr>, [])
         | _ \<Rightarrow> stop)"

section \<open>Properties of the matcher\<close>

lemma m_items_suffix:
  "(q, r) \<in> set (m_items ml is p s) \<Longrightarrow> length r \<le> length s"
proof (induction ml "is" p s arbitrary: q r rule: m_items.induct)
  case (7 ml lo hi a "is" p c cs)
  then show ?case by (fastforce split: if_splits)
qed (fastforce split: if_splits)+

lemma m_items_Rep_progress:
  "(q, r) \<in> set (m_items ml (Rep (Suc lo) hi a # is) p s) \<Longrightarrow> length r < length s"
  by (cases s) (auto split: if_splits dest: m_items_suffix)

lemma m_items_Rep_pos:
  "0 < lo \<Longrightarrow> (q, r) \<in> set (m_items ml (Rep lo hi a # is) p s) \<Longrightarrow> length r < length s"
  by (cases lo) (auto dest: m_items_Rep_progress)

lemma match_here_group_nonempty:
  assumes "group rx = Some (Rep lo hi a # g)" and "0 < lo"
    and "m \<in> set (match_here rx pre s)"
  shows "\<exists>v. m_group m = Some v \<and> v \<noteq> []"
proof -
  from assms(3) obtain p1 r1 p2 r2 where
    r2: "(p2, r2) \<in> set (m_items (multiline rx) (Rep lo hi a # g) p1 r1)"
    and m: "m_group m = Some (take (length r1 - length r2) r1)"
    by (auto simp: match_here_def Let_def assms(1))
  from m_items_Rep_pos[OF assms(2) r2] have "length r2 < length r1" .
  then have "take (length r1 - length r2) r1 \<noteq> []" by auto
  with m show ?thesis by simp
qed

lemma search_Some_match_here:
  "search rx pre s = Some m \<Longrightarrow> \<exists>a b. s = a @ b \<and> m \<in> set (match_here rx (pre @ a) b)"
proof (induction s arbitrary: pre)
  case Nil
  then show ?case by (auto split: list.splits)
next
  case (Cons c cs)
  show ?case
  proof (cases "match_here rx pre (c # cs)")
    case Nil
    with Cons.prems have "search rx (pre @ [c]) cs = Some m" by simp
    from Cons.IH[OF this] obtain a b where "cs = a @ b" "m \<in> set (match_here rx ((pre @ [c]) @ a) b)"
      by blast
    then have "c # cs = (c # a) @ b \<and> m \<in> set (match_here rx (pre @ (c # a)) b)" by simp
    then show ?thesis by blast
  next
    case (Cons m' ms)
    with Cons.prems have "m = m'" by simp
    with Cons have "c # cs = [] @ (c # cs) \<and> m \<in> set (match_here rx (pre @ []) (c # cs))" by simp
    then show ?thesis by blast
  qed
qed

lemma search_None_iff:
  "search rx pre s = None \<longleftrightarrow> (\<forall>a b. s = a @ b \<longrightarrow> match_here rx (pre @ a) b = [])"
proof (induction s arbitrary: pre)
  case Nil
  then show ?case by (auto split: list.splits)
next
  case (Cons c cs)
  show ?case
  proof (cases "match_here rx pre (c # cs)")
    case Nil
    have "(\<forall>a b. c # cs = a @ b \<longrightarrow> match_here rx (pre @ a) b = []) \<longleftrightarrow>
          (\<forall>a b. cs = a @ b \<longrightarrow> match_here rx ((pre @ [c]) @ a) b = [])"
      using Nil by (auto simp: Cons_eq_append_conv)
    with Nil Cons.IH[of "pre @ [c]"] show ?thesis by simp
  next
    case (Cons m' ms)
    then have "\<not> (\<forall>a b. c # cs = a @ b \<longrightarrow> match_here rx (pre @ a) b = [])"
      by (metis append_Nil append_Nil2 list.distinct(1))
    with Cons show ?thesis by simp
  qed
qed


text \<open>
  A match splits the text into the part before it, the match and the part after it, and
  the capture is a piece of the match.
\<close>

lemma m_items_is_suffix:
  "(q, r) \<in> set (m_items ml is p s) \<Longrightarrow> suffix r s"
proof (induction ml "is" p s arbitrary: q r rule: m_items.induct)
  case (7 ml lo hi a "is" p c cs)
  then show ?case by (fastforce split: if_splits intro: suffix_ConsI)
qed (fastforce split: if_splits intro: suffix_ConsI)+

lemma suffix_take_length:
  assumes "suffix r s"
  shows "s = take (length s - length r) s @ r"
  using assms by (auto simp: suffix_def)

lemma match_here_parts:
  assumes "m \<in> set (match_here rx pre s)"
  shows "s = m_whole m @ m_post m \<and> m_pre m = pre
         \<and> (\<forall>v. m_group m = Some v \<longrightarrow> sublist v (m_whole m))"
proof -
  from assms obtain p1 r1 p2 r2 p3 r3 where
    1: "(p1, r1) \<in> set (m_items (multiline rx) (before rx)
                           (if pre = [] then None else Some (last pre)) s)"
    and 2: "(p2, r2) \<in> set (case group rx of None \<Rightarrow> [(p1, r1)]
                              | Some g \<Rightarrow> m_items (multiline rx) g p1 r1)"
    and 3: "(p3, r3) \<in> set (m_items (multiline rx) (after rx) p2 r2)"
    and m: "m = \<lparr> m_pre = pre, m_whole = take (length s - length r3) s,
                   m_group = (case group rx of None \<Rightarrow> None
                              | Some _ \<Rightarrow> Some (take (length r1 - length r2) r1)),
                   m_post = r3 \<rparr>"
    by (auto simp: match_here_def Let_def)
  from 1 have s1: "suffix r1 s" by (rule m_items_is_suffix)
  from 2 have s2: "suffix r2 r1"
    by (cases "group rx") (auto dest: m_items_is_suffix)
  from 3 have s3: "suffix r3 r2" by (rule m_items_is_suffix)
  from s1 obtain a where a: "s = a @ r1" by (auto simp: suffix_def)
  from s2 obtain b where b: "r1 = b @ r2" by (auto simp: suffix_def)
  from s3 obtain c where c: "r2 = c @ r3" by (auto simp: suffix_def)
  have w: "m_whole m = a @ b @ c" by (simp add: m a b c)
  have g: "m_group m = Some v \<Longrightarrow> v = b" for v
    by (cases "group rx") (auto simp: m b)
  from w g have "\<forall>v. m_group m = Some v \<longrightarrow> sublist v (m_whole m)"
    by (auto simp: sublist_def)
  moreover have "s = m_whole m @ m_post m" by (simp add: m a b c)
  moreover have "m_pre m = pre" by (simp add: m)
  ultimately show ?thesis by blast
qed

lemma js_match_parts:
  assumes "js_match text rx = Some m"
  shows "text = m_pre m @ m_whole m @ m_post m
         \<and> (\<forall>v. m_group m = Some v \<longrightarrow> sublist v (m_whole m))"
proof -
  from assms obtain a b where t: "text = a @ b" and "m \<in> set (match_here rx ([] @ a) b)"
    unfolding js_match_def by (blast dest: search_Some_match_here)
  from match_here_parts[OF this(2)] t show ?thesis by simp
qed

lemma js_match_group_sublist:
  assumes "js_match text rx = Some m" and "m_group m = Some v"
  shows "sublist v text"
proof -
  from js_match_parts[OF assms(1)] assms(2) have
    "text = m_pre m @ m_whole m @ m_post m" "sublist v (m_whole m)" by auto
  then show ?thesis
    by (metis sublist_appendI sublist_order.order.trans)
qed

lemma m_items_lits:
  "m_items ml (lits l @ is) p s =
     (if prefix l s
      then m_items ml is (if l = [] then p else Some (last l)) (drop (length l) s)
      else [])"
proof (induction l arbitrary: p s)
  case Nil
  then show ?case by (simp add: lits_def)
next
  case (Cons a l)
  show ?case
  proof (cases s)
    case Nil
    then show ?thesis by (simp add: lits_def)
  next
    case (Cons c cs)
    with Cons.IH[of "Some c" cs] show ?thesis
      by (auto simp: lits_def)
  qed
qed

lemma m_items_lits_only:
  "m_items ml (lits l) p s =
     (if prefix l s then [(if l = [] then p else Some (last l), drop (length l) s)] else [])"
  using m_items_lits[of ml l "[]" p s] by simp

section \<open>Properties of extractTokenInfo\<close>

lemma extract_loop_eq:
  "extract_loop ks text m =
     (if \<forall>k\<in>set ks. capture (patterns k) text \<noteq> None
      then Some (\<lambda>k. if k \<in> set ks then capture (patterns k) text else m k)
      else None)"
proof (induction ks arbitrary: m)
  case Nil
  then show ?case by simp
next
  case (Cons k ks)
  show ?case
  proof (cases "capture (patterns k) text")
    case None
    then show ?thesis by simp
  next
    case (Some v)
    then show ?thesis by (auto simp: Cons.IH fun_upd_def intro!: ext)
  qed
qed

lemma field_UNIV: "set pattern_keys = UNIV"
proof -
  have "k \<in> set pattern_keys" for k by (cases k) (simp_all add: pattern_keys_def)
  then show ?thesis by blast
qed

lemma extractTokenInfo_eq:
  "extractTokenInfo text =
     (if \<forall>k. capture (patterns k) text \<noteq> None
      then Some (\<lambda>k. capture (patterns k) text) else None)"
  by (simp add: extractTokenInfo_def extract_loop_eq field_UNIV)


lemma patterns_group:
  "\<exists>lo hi a g. group (patterns k) = Some (Rep lo hi a # g) \<and> 0 < lo"
  by (cases k) simp_all

lemma js_match_group_nonempty:
  assumes "js_match text (patterns k) = Some m"
  shows "\<exists>v. m_group m = Some v \<and> v \<noteq> []"
proof -
  from patterns_group[of k] obtain lo hi a g where
    g: "group (patterns k) = Some (Rep lo hi a # g)" "0 < lo" by blast
  from assms obtain x y where "m \<in> set (match_here (patterns k) ([] @ x) y)"
    unfolding js_match_def by (blast dest: search_Some_match_here)
  from match_here_group_nonempty[OF g this] show ?thesis .
qed

lemma capture_eq_group:
  "capture (patterns k) text = Option.bind (js_match text (patterns k)) m_group"
proof (cases "js_match text (patterns k)")
  case None
  then show ?thesis by (simp add: capture_def)
next
  case (Some m)
  with js_match_group_nonempty[OF Some] show ?thesis by (auto simp: capture_def)
qed

lemma capture_None_iff:
  "capture (patterns k) text = None \<longleftrightarrow> js_match text (patterns k) = None"
proof (cases "js_match text (patterns k)")
  case None
  then show ?thesis by (simp add: capture_def)
next
  case (Some m)
  with js_match_group_nonempty[OF Some] show ?thesis by (auto simp: capture_def)
qed

lemma labelled_shape:
  assumes "labelled k"
  shows "\<exists>a g. before (patterns k) = lits (label k @ '' '') \<and>
          group (patterns k) = Some (Rep 1 None a # g) \<and> \<not> atom_ok a CHR '' ''"
  using assms unfolding labelled_def
  by (auto simp: single_def digit_range_def)

lemma labelled_match_here_Nil:
  assumes k: "labelled k"
    and s: "\<not> prefix (label k @ '' '') s \<or> prefix (label k @ ''  '') s"
  shows "match_here (patterns k) pre s = []"
proof -
  from labelled_shape[OF k] obtain a g where
    b: "before (patterns k) = lits (label k @ '' '')"
    and g: "group (patterns k) = Some (Rep 1 None a # g)"
    and a: "\<not> atom_ok a CHR '' ''" by blast
  show ?thesis
  proof (cases "prefix (label k @ '' '') s")
    case False
    then show ?thesis by (simp add: match_here_def b m_items_lits_only)
  next
    case True
    with s have "prefix (label k @ ''  '') s" by simp
    then obtain t where s': "s = (label k @ '' '') @ CHR '' '' # t"
      by (auto simp: prefix_def)
    have m: "m_items (multiline (patterns k)) (before (patterns k)) p s
               = [(Some CHR '' '', CHR '' '' # t)]" for p
      unfolding b s' m_items_lits_only by simp
    have "m_items (multiline (patterns k)) (Rep 1 None a # g) q (CHR '' '' # t) = []" for q
      using a by simp
    then show ?thesis
      unfolding match_here_def Let_def m g by simp
  qed
qed

text \<open>
  C1. For every text, extractTokenInfo returns null or an object that has all six
  properties; and when the pattern of any key \<open>k\<close> yields no capture (no match, or an
  empty first group), the result is null. No object with fewer properties is returned.
\<close>

theorem extractTokenInfo_all_or_nothing:
  "(extractTokenInfo text = None
      \<or> (\<exists>r. extractTokenInfo text = Some r
               \<and> dom r = {tokenName, ca, price, mc, holders, top10}))
   \<and> (capture (patterns k) text = None \<longrightarrow> extractTokenInfo text = None)"
proof -
  have u: "{tokenName, ca, price, mc, holders, top10} = (UNIV :: field set)"
    using field_UNIV by (simp add: pattern_keys_def)
  show ?thesis
    unfolding u extractTokenInfo_eq by (auto simp: dom_def)
qed

text \<open>A message without the Holders field: the pattern fails and the result is null.\<close>

theorem extractTokenInfo_all_or_nothing_witness:
  "capture (patterns holders)
     ''New gem: $FOO `Abc123Abc123Abc123Abc123Abc123Abc123ab` **Price:** $0.002 **Market Cap:** $500k **Top10:** 12.5%'' = None
   \<and> extractTokenInfo
     ''New gem: $FOO `Abc123Abc123Abc123Abc123Abc123Abc123ab` **Price:** $0.002 **Market Cap:** $500k **Top10:** 12.5%'' = None"
proof -
  have h: "capture (patterns holders)
     ''New gem: $FOO `Abc123Abc123Abc123Abc123Abc123Abc123ab` **Price:** $0.002 **Market Cap:** $500k **Top10:** 12.5%'' = None"
    by code_simp
  with extractTokenInfo_all_or_nothing[of
     "''New gem: $FOO `Abc123Abc123Abc123Abc123Abc123Abc123ab` **Price:** $0.002 **Market Cap:** $500k **Top10:** 12.5%''" holders]
  show ?thesis by blast
qed

text \<open>
  C4. When all six patterns match the text, extractTokenInfo returns an object in which
  the property of every key is element 1 of the match array of that key's pattern on
  the text: the piece of the text that the first group captured, unchanged.
\<close>

theorem extractTokenInfo_fields_exact:
  assumes "\<forall>k. js_match text (patterns k) \<noteq> None"
  shows "\<exists>r. extractTokenInfo text = Some r
           \<and> (\<forall>k. \<exists>m v. js_match text (patterns k) = Some m \<and> m_group m = Some v
                        \<and> r k = Some v \<and> sublist v text)"
proof -
  from assms have c: "\<forall>k. capture (patterns k) text \<noteq> None"
    by (simp add: capture_None_iff)
  then have "extractTokenInfo text = Some (\<lambda>k. capture (patterns k) text)"
    by (simp add: extractTokenInfo_eq)
  moreover have "\<exists>m v. js_match text (patterns k) = Some m \<and> m_group m = Some v
                    \<and> capture (patterns k) text = Some v \<and> sublist v text" for k
  proof -
    from assms obtain m where m: "js_match text (patterns k) = Some m" by auto
    from js_match_group_nonempty[OF m] obtain v where v: "m_group m = Some v" by blast
    from m v have "capture (patterns k) text = Some v" by (simp add: capture_eq_group)
    moreover from m v have "sublist v text" by (rule js_match_group_sublist)
    ultimately show ?thesis using m v by blast
  qed
  ultimately show ?thesis by blast
qed

text \<open>The message of scenario A, with an address of 38 characters.\<close>

theorem extractTokenInfo_fields_exact_witness:
  "(\<forall>k. js_match ''New gem: $FOO `Abc123Abc123Abc123Abc123Abc123Abc123ab` **Price:** $0.002 **Market Cap:** $500k **Holders:** 120 **Top10:** 12.5%'' (patterns k) \<noteq> None)
   \<and> (\<exists>r. extractTokenInfo ''New gem: $FOO `Abc123Abc123Abc123Abc123Abc123Abc123ab` **Price:** $0.002 **Market Cap:** $500k **Holders:** 120 **Top10:** 12.5%'' = Some r
          \<and> r tokenName = Some ''FOO''
          \<and> r ca = Some ''Abc123Abc123Abc123Abc123Abc123Abc123ab''
          \<and> r price = Some ''$0.002'' \<and> r mc = Some ''$500k''
          \<and> r holders = Some ''120'' \<and> r top10 = Some ''12.5%'')"
proof -
  let ?t = "''New gem: $FOO `Abc123Abc123Abc123Abc123Abc123Abc123ab` **Price:** $0.002 **Market Cap:** $500k **Holders:** 120 **Top10:** 12.5%''"
  have g1: "Option.bind (js_match ?t (patterns tokenName)) m_group = Some ''FOO''" by code_simp
  have g2: "Option.bind (js_match ?t (patterns ca)) m_group
              = Some ''Abc123Abc123Abc123Abc123Abc123Abc123ab''" by code_simp
  have g3: "Option.bind (js_match ?t (patterns price)) m_group = Some ''$0.002''" by code_simp
  have g4: "Option.bind (js_match ?t (patterns mc)) m_group = Some ''$500k''" by code_simp
  have g5: "Option.bind (js_match ?t (patterns holders)) m_group = Some ''120''" by code_simp
  have g6: "Option.bind (js_match ?t (patterns top10)) m_group = Some ''12.5%''" by code_simp
  have b: "x \<noteq> None" if "Option.bind x m_group = Some v" for x :: "rmatch option" and v
    using that by (cases x) simp_all
  have h: "\<forall>k. js_match ?t (patterns k) \<noteq> None"
  proof
    fix k show "js_match ?t (patterns k) \<noteq> None"
      using b[OF g1] b[OF g2] b[OF g3] b[OF g4] b[OF g5] b[OF g6] by (cases k) blast+
  qed
  from extractTokenInfo_fields_exact[OF h] obtain r where
    r: "extractTokenInfo ?t = Some r"
       "\<And>k. \<exists>m v. js_match ?t (patterns k) = Some m \<and> m_group m = Some v
                  \<and> r k = Some v \<and> sublist v ?t" by blast
  have "r k = Option.bind (js_match ?t (patterns k)) m_group" for k
    using r(2)[of k] by auto
  with g1 g2 g3 g4 g5 g6 r(1) h show ?thesis by simp
qed

text \<open>
  C5. The loop of extractTokenInfo, run over the six keys in any order (any permutation
  of the order of the source), gives the result of extractTokenInfo: the same
  properties with the same values, or null.
\<close>

theorem extract_order_independent:
  assumes "mset ks = mset pattern_keys"
  shows "extract_loop ks text Map.empty = extractTokenInfo text"
proof -
  from assms have "set ks = set pattern_keys" by (rule mset_eq_setD)
  then have "set ks = UNIV" by (simp add: field_UNIV)
  then show ?thesis by (simp add: extract_loop_eq extractTokenInfo_eq)
qed

text \<open>The reverse order, on the message of scenario A.\<close>

theorem extract_order_independent_witness:
  "mset [top10, holders, mc, price, ca, tokenName] = mset pattern_keys
   \<and> extract_loop [top10, holders, mc, price, ca, tokenName]
         ''New gem: $FOO `Abc123Abc123Abc123Abc123Abc123Abc123ab` **Price:** $0.002 **Market Cap:** $500k **Holders:** 120 **Top10:** 12.5%'' Map.empty
       = extractTokenInfo ''New gem: $FOO `Abc123Abc123Abc123Abc123Abc123Abc123ab` **Price:** $0.002 **Market Cap:** $500k **Holders:** 120 **Top10:** 12.5%''"
proof -
  have h: "mset [top10, holders, mc, price, ca, tokenName] = mset pattern_keys"
    by (simp add: pattern_keys_def)
  from extract_order_independent[OF h] h show ?thesis by blast
qed

text \<open>
  C8. The pattern of the token symbol is searched in the whole text. In the message
  below all six labelled fields are present and no symbol precedes the price; the first
  dollar sign followed by an alphanumeric character is the one of the price, and
  extractTokenInfo succeeds with the token name \<open>0\<close>.
\<close>

theorem symbol_taken_from_price:
  "\<exists>r. extractTokenInfo ''`Abc123Abc123Abc123Abc123Abc123Abc123ab` **Price:** $0.002 **Market Cap:** $500k **Holders:** 120 **Top10:** 12.5%'' = Some r
       \<and> r tokenName = Some ''0'' \<and> r price = Some ''$0.002''"
proof -
  let ?t = "''`Abc123Abc123Abc123Abc123Abc123Abc123ab` **Price:** $0.002 **Market Cap:** $500k **Holders:** 120 **Top10:** 12.5%''"
  have c1: "capture (patterns tokenName) ?t = Some ''0''" by code_simp
  have c2: "capture (patterns ca) ?t \<noteq> None" by code_simp
  have c3: "capture (patterns price) ?t = Some ''$0.002''" by code_simp
  have c4: "capture (patterns mc) ?t \<noteq> None" by code_simp
  have c5: "capture (patterns holders) ?t \<noteq> None" by code_simp
  have c6: "capture (patterns top10) ?t \<noteq> None" by code_simp
  have "\<forall>k. capture (patterns k) ?t \<noteq> None"
  proof
    fix k show "capture (patterns k) ?t \<noteq> None"
      using c1 c2 c3 c4 c5 c6 by (cases k) blast+
  qed
  then have "extractTokenInfo ?t = Some (\<lambda>k. capture (patterns k) ?t)"
    unfolding extractTokenInfo_eq by (rule if_P)
  with c1 c3 show ?thesis by simp
qed

text \<open>
  C9. Each labelled pattern (price, market cap, holders, top 10) needs exactly one space
  between the bold label and the value. For every text in which every occurrence of
  the label is followed by no space or by two spaces (every suffix of the text that
  starts with the label does not go on with a space, or goes on with two), the pattern
  of that key does not match, and extractTokenInfo returns null.
\<close>

theorem label_needs_one_space:
  assumes "labelled k"
    and "\<forall>suf \<in> set (suffixes text).
           prefix (label k) suf \<longrightarrow>
             \<not> prefix (label k @ '' '') suf \<or> prefix (label k @ ''  '') suf"
  shows "js_match text (patterns k) = None \<and> extractTokenInfo text = None"
proof -
  have "match_here (patterns k) ([] @ a) b = []" if "text = a @ b" for a b
  proof -
    from that have "b \<in> set (suffixes text)" by (auto simp: suffix_def)
    with assms(2) have "prefix (label k) b \<longrightarrow>
        \<not> prefix (label k @ '' '') b \<or> prefix (label k @ ''  '') b" by blast
    moreover have "\<not> prefix (label k) b \<Longrightarrow> \<not> prefix (label k @ '' '') b"
      using append_prefixD by blast
    ultimately have "\<not> prefix (label k @ '' '') b \<or> prefix (label k @ ''  '') b" by blast
    with assms(1) show ?thesis by (rule labelled_match_here_Nil)
  qed
  then have n: "js_match text (patterns k) = None"
    unfolding js_match_def search_None_iff by blast
  then have "capture (patterns k) text = None" by (simp add: capture_None_iff)
  then have "extractTokenInfo text = None" by (auto simp: extractTokenInfo_eq)
  with n show ?thesis by simp
qed

text \<open>
  The message of scenario A with two spaces after the price label, and the same message
  with no space after the holders label.
\<close>

theorem label_needs_one_space_witness:
  "labelled price
   \<and> js_match ''$FOO `Abc123Abc123Abc123Abc123Abc123Abc123ab` **Price:**  $0.002 **Market Cap:** $500k **Holders:** 120 **Top10:** 12.5%'' (patterns price) = None
   \<and> extractTokenInfo ''$FOO `Abc123Abc123Abc123Abc123Abc123Abc123ab` **Price:**  $0.002 **Market Cap:** $500k **Holders:** 120 **Top10:** 12.5%'' = None
   \<and> labelled holders
   \<and> js_match ''$FOO `Abc123Abc123Abc123Abc123Abc123Abc123ab` **Price:** $0.002 **Market Cap:** $500k **Holders:**120 **Top10:** 12.5%'' (patterns holders) = None
   \<and> extractTokenInfo ''$FOO `Abc123Abc123Abc123Abc123Abc123Abc123ab` **Price:** $0.002 **Market Cap:** $500k **Holders:**120 **Top10:** 12.5%'' = None"
proof -
  let ?t = "''$FOO `Abc123Abc123Abc123Abc123Abc123Abc123ab` **Price:**  $0.002 **Market Cap:** $500k **Holders:** 120 **Top10:** 12.5%''"
  let ?u = "''$FOO `Abc123Abc123Abc123Abc123Abc123Abc123ab` **Price:** $0.002 **Market Cap:** $500k **Holders:**120 **Top10:** 12.5%''"
  have l: "labelled price" by (simp add: labelled_def)
  have h: "\<forall>suf \<in> set (suffixes ?t).
           prefix (label price) suf \<longrightarrow>
             \<not> prefix (label price @ '' '') suf \<or> prefix (label price @ ''  '') suf"
    by code_simp
  have l': "labelled holders" by (simp add: labelled_def)
  have h': "\<forall>suf \<in> set (suffixes ?u).
           prefix (label holders) suf \<longrightarrow>
             \<not> prefix (label holders @ '' '') suf \<or> prefix (label holders @ ''  '') suf"
    by code_simp
  from label_needs_one_space[OF l h] label_needs_one_space[OF l' h'] l l'
  show ?thesis by blast
qed

text \<open>
  The condition on every occurrence of the label is needed. The message below holds the
  price label twice; with one space after each it matches in full. With two spaces after
  the first label only, the price pattern still matches, at the second label, and
  extractTokenInfo returns an object whose price is \<open>$7\<close>.
\<close>

theorem label_twice_still_matches:
  "extractTokenInfo ''$FOO `Abc123Abc123Abc123Abc123Abc123Abc123ab` **Price:** $0.002 **Price:** $7 **Market Cap:** $500k **Holders:** 120 **Top10:** 12.5%'' \<noteq> None
   \<and> js_match ''$FOO `Abc123Abc123Abc123Abc123Abc123Abc123ab` **Price:**  $0.002 **Price:** $7 **Market Cap:** $500k **Holders:** 120 **Top10:** 12.5%'' (patterns price) \<noteq> None
   \<and> capture (patterns price) ''$FOO `Abc123Abc123Abc123Abc123Abc123Abc123ab` **Price:**  $0.002 **Price:** $7 **Market Cap:** $500k **Holders:** 120 **Top10:** 12.5%'' = Some ''$7''
   \<and> extractTokenInfo ''$FOO `Abc123Abc123Abc123Abc123Abc123Abc123ab` **Price:**  $0.002 **Price:** $7 **Market Cap:** $500k **Holders:** 120 **Top10:** 12.5%'' \<noteq> None"
proof -
  let ?t = "''$FOO `Abc123Abc123Abc123Abc123Abc123Abc123ab` **Price:** $0.002 **Price:** $7 **Market Cap:** $500k **Holders:** 120 **Top10:** 12.5%''"
  let ?u = "''$FOO `Abc123Abc123Abc123Abc123Abc123Abc123ab` **Price:**  $0.002 **Price:** $7 **Market Cap:** $500k **Holders:** 120 **Top10:** 12.5%''"
  have t1: "capture (patterns tokenName) ?t \<noteq> None" by code_simp
  have t2: "capture (patterns ca) ?t \<noteq> None" by code_simp
  have t3: "capture (patterns price) ?t \<noteq> None" by code_simp
  have t4: "capture (patterns mc) ?t \<noteq> None" by code_simp
  have t5: "capture (patterns holders) ?t \<noteq> None" by code_simp
  have t6: "capture (patterns top10) ?t \<noteq> None" by code_simp
  have "\<forall>k. capture (patterns k) ?t \<noteq> None"
  proof
    fix k show "capture (patterns k) ?t \<noteq> None"
      using t1 t2 t3 t4 t5 t6 by (cases k) blast+
  qed
  then have t: "extractTokenInfo ?t \<noteq> None"
    unfolding extractTokenInfo_eq by simp
  have u1: "capture (patterns tokenName) ?u \<noteq> None" by code_simp
  have u2: "capture (patterns ca) ?u \<noteq> None" by code_simp
  have u3: "capture (patterns price) ?u = Some ''$7''" by code_simp
  have u4: "capture (patterns mc) ?u \<noteq> None" by code_simp
  have u5: "capture (patterns holders) ?u \<noteq> None" by code_simp
  have u6: "capture (patterns top10) ?u \<noteq> None" by code_simp
  have "\<forall>k. capture (patterns k) ?u \<noteq> None"
  proof
    fix k show "capture (patterns k) ?u \<noteq> None"
      using u1 u2 u3 u4 u5 u6 by (cases k) auto
  qed
  then have u: "extractTokenInfo ?u \<noteq> None"
    unfolding extractTokenInfo_eq by simp
  from u3 have "js_match ?u (patterns price) \<noteq> None"
    using capture_None_iff[of price ?u] by simp
  with t u u3 show ?thesis by blast
qed

section \<open>Properties of getPairAddress and sendToDiscord\<close>

lemma in_logToFile:
  "AppendFile LOG_FILE (''['' @ now w @ ''] '' @ message @ [CHR 0x0A]) \<in> set (logToFile w message)"
  by (simp add: logToFile_def Let_def)

text \<open>
  C2. getPairAddress always returns and never throws. When the reply is a 2xx response
  whose \<open>pairs\<close> array has one or more entries, it returns the \<open>pairAddress\<close> of the first
  entry. When \<open>data\<close> or \<open>pairs\<close> is absent or the array is empty, it returns null and the
  line \<open>No pairs found for token\<close> is appended to the log file. When the request fails
  (a status outside 2xx, a timeout, a network error), it returns null and the line
  \<open>API Error fetching pair address\<close> with the message of the error is appended to the
  log file.
\<close>

theorem getPairAddress_outcomes:
  "(\<exists>v. fst (getPairAddress a rep w) = Return v)
   \<and> (\<forall>r d p ps. rep = Ok2xx r \<and> data r = Some d \<and> pairs d = Some (p # ps)
         \<longrightarrow> fst (getPairAddress a rep w) = Return (Some (pairAddress p)))
   \<and> (\<forall>r. rep = Ok2xx r
            \<and> (data r = None \<or> (\<exists>d. data r = Some d \<and> (pairs d = None \<or> pairs d = Some [])))
         \<longrightarrow> fst (getPairAddress a rep w) = Return None
             \<and> AppendFile LOG_FILE
                  (''['' @ now w @ ''] No pairs found for token: '' @ a @ [CHR 0x0A])
                 \<in> set (snd (getPairAddress a rep w)))
   \<and> (\<forall>msg. (\<exists>status. rep = Non2xx status msg) \<or> rep = Timeout msg \<or> rep = NetworkError msg
         \<longrightarrow> fst (getPairAddress a rep w) = Return None
             \<and> AppendFile LOG_FILE
                  (''['' @ now w @ ''] API Error fetching pair address: '' @ msg @ [CHR 0x0A])
                 \<in> set (snd (getPairAddress a rep w)))"
proof (intro conjI allI impI)
  show "\<exists>v. fst (getPairAddress a rep w) = Return v"
    by (cases rep)
       (auto simp: getPairAddress_def getPairAddress_try_def Let_def
             split: option.splits list.splits)
next
  fix r d p ps
  assume "rep = Ok2xx r \<and> data r = Some d \<and> pairs d = Some (p # ps)"
  then show "fst (getPairAddress a rep w) = Return (Some (pairAddress p))"
    by (simp add: getPairAddress_def getPairAddress_try_def Let_def)
next
  fix r
  assume h: "rep = Ok2xx r
    \<and> (data r = None \<or> (\<exists>d. data r = Some d \<and> (pairs d = None \<or> pairs d = Some [])))"
  then have e: "getPairAddress a rep w
      = (Return None, HttpGet (search_url a) 10000
                        # logToFile w (''No pairs found for token: '' @ a))"
    by (auto simp: getPairAddress_def getPairAddress_try_def Let_def)
  show "fst (getPairAddress a rep w) = Return None" by (simp add: e)
  show "AppendFile LOG_FILE (''['' @ now w @ ''] No pairs found for token: '' @ a @ [CHR 0x0A])
          \<in> set (snd (getPairAddress a rep w))"
    using in_logToFile[of w "''No pairs found for token: '' @ a"] by (simp add: e)
next
  fix msg
  assume h: "(\<exists>status. rep = Non2xx status msg) \<or> rep = Timeout msg \<or> rep = NetworkError msg"
  then have e: "getPairAddress a rep w
      = (Return None,
         [HttpGet (search_url a) 10000,
          ConsoleError [''Error fetching pair address from DexScreener:'', msg]]
           @ logToFile w (''API Error fetching pair address: '' @ msg))"
    by (auto simp: getPairAddress_def getPairAddress_try_def Let_def)
  show "fst (getPairAddress a rep w) = Return None" by (simp add: e)
  show "AppendFile LOG_FILE
          (''['' @ now w @ ''] API Error fetching pair address: '' @ msg @ [CHR 0x0A])
          \<in> set (snd (getPairAddress a rep w))"
    using in_logToFile[of w "''API Error fetching pair address: '' @ msg"] by (simp add: e)
qed

text \<open>A timeout, a response with two pairs, and a response with none.\<close>

theorem getPairAddress_outcomes_witness:
  "fst (getPairAddress ''Abc'' (Timeout ''timeout of 10000ms exceeded'')
          \<lparr> now = ''2024-01-01T00:00:00.000Z'', append_ok = True \<rparr>) = Return None
   \<and> AppendFile LOG_FILE
        (''[2024-01-01T00:00:00.000Z] API Error fetching pair address: timeout of 10000ms exceeded''
           @ [CHR 0x0A])
       \<in> set (snd (getPairAddress ''Abc'' (Timeout ''timeout of 10000ms exceeded'')
                      \<lparr> now = ''2024-01-01T00:00:00.000Z'', append_ok = True \<rparr>))
   \<and> fst (getPairAddress ''Abc''
             (Ok2xx \<lparr> data = Some \<lparr> pairs = Some [\<lparr> pairAddress = ''P1'' \<rparr>,
                                                  \<lparr> pairAddress = ''P2'' \<rparr>] \<rparr> \<rparr>)
             \<lparr> now = ''2024-01-01T00:00:00.000Z'', append_ok = True \<rparr>) = Return (Some ''P1'')
   \<and> fst (getPairAddress ''Abc'' (Ok2xx \<lparr> data = Some \<lparr> pairs = Some [] \<rparr> \<rparr>)
             \<lparr> now = ''2024-01-01T00:00:00.000Z'', append_ok = True \<rparr>) = Return None"
  using getPairAddress_outcomes[of "''Abc''" "Timeout ''timeout of 10000ms exceeded''"
          "\<lparr> now = ''2024-01-01T00:00:00.000Z'', append_ok = True \<rparr>"]
        getPairAddress_outcomes[of "''Abc''"
          "Ok2xx \<lparr> data = Some \<lparr> pairs = Some [\<lparr> pairAddress = ''P1'' \<rparr>,
                                               \<lparr> pairAddress = ''P2'' \<rparr>] \<rparr> \<rparr>"
          "\<lparr> now = ''2024-01-01T00:00:00.000Z'', append_ok = True \<rparr>"]
        getPairAddress_outcomes[of "''Abc''" "Ok2xx \<lparr> data = Some \<lparr> pairs = Some [] \<rparr> \<rparr>"
          "\<lparr> now = ''2024-01-01T00:00:00.000Z'', append_ok = True \<rparr>"]
  by simp

text \<open>
  C3. When \<open>info\<close> or \<open>pairAddress\<close> is absent (null or undefined), sendToDiscord returns at
  once: it makes no call at all, so no POST request and no write to the log file.
\<close>

theorem sendToDiscord_absent_noop:
  assumes "info = None \<or> pairAddr = None"
  shows "sendToDiscord d webhook info pairAddr stamp post w = (Return (), [])"
  using assms by (auto simp: sendToDiscord_def split: option.splits)

text \<open>An absent \<open>info\<close>, and an absent \<open>pairAddress\<close>.\<close>

theorem sendToDiscord_absent_noop_witness:
  "sendToDiscord \<lparr> bullet = ''-'', sparkles = ''*'', coin = ''o'', chart = ''#'', link = ''@'' \<rparr>
     ''https://discord.example/hook'' None (Some ''P1'') ''2024-01-01T00:00:00.000Z'' None
     \<lparr> now = ''2024-01-01T00:00:00.000Z'', append_ok = True \<rparr> = (Return (), [])
   \<and> sendToDiscord \<lparr> bullet = ''-'', sparkles = ''*'', coin = ''o'', chart = ''#'', link = ''@'' \<rparr>
     ''https://discord.example/hook'' (Some [tokenName \<mapsto> ''FOO'']) None
     ''2024-01-01T00:00:00.000Z'' None
     \<lparr> now = ''2024-01-01T00:00:00.000Z'', append_ok = True \<rparr> = (Return (), [])"
proof -
  have a: "(None :: (field \<rightharpoonup> string) option) = None \<or> Some ''P1'' = None" by simp
  have b: "Some [tokenName \<mapsto> ''FOO''] = None \<or> (None :: string option) = None" by simp
  from sendToDiscord_absent_noop[OF a] sendToDiscord_absent_noop[OF b]
  show ?thesis by blast
qed

text \<open>With both arguments present and a pair address that is not empty, the request is made.\<close>

lemma sendToDiscord_present:
  assumes "pa \<noteq> []"
  shows "\<exists>evs. snd (sendToDiscord d webhook (Some i) (Some pa) stamp post w)
           = HttpPost webhook [make_embed d i pa stamp] # evs \<and> evs \<noteq> []"
  using assms by (auto simp: sendToDiscord_def logToFile_def Let_def split: option.splits)

section \<open>Properties of the startup check\<close>

text \<open>The Number that parseInt returns is falsy exactly when no integer or zero is read.\<close>

lemma bit_length_lower: "0 < n \<Longrightarrow> 2 ^ (bit_length n - 1) \<le> n"
proof (induction n rule: bit_length.induct)
  case (1 n)
  show ?case
  proof (cases "n div 2 \<le> 0")
    case True
    with 1(2) have "n = 1" by presburger
    then show ?thesis by (simp add: bit_length.simps[of 1] bit_length.simps[of 0])
  next
    case False
    with 1 have ih: "2 ^ (bit_length (n div 2) - 1) \<le> n div 2" by simp
    from False have "bit_length (n div 2) \<noteq> 0" by (simp add: bit_length.simps[of "n div 2"])
    then have "bit_length n - 1 = Suc (bit_length (n div 2) - 1)"
      using 1(2) by (simp add: bit_length.simps[of n])
    then have "(2::int) ^ (bit_length n - 1) = 2 * 2 ^ (bit_length (n div 2) - 1)" by simp
    also have "\<dots> \<le> 2 * (n div 2)" using ih by simp
    also have "\<dots> \<le> n" by simp
    finally show ?thesis .
  qed
qed

lemma round_to_double_zero:
  assumes "0 \<le> n"
  shows "round_to_double n = Some 0 \<longleftrightarrow> n = 0"
proof (cases "bit_length n \<le> 53")
  case True
  then show ?thesis by (simp add: round_to_double_def Let_def)
next
  case False
  have "bit_length 0 = 0" by (simp add: bit_length.simps)
  with False assms have n: "0 < n" by (cases "n = 0") auto
  define e where "e = bit_length n - 53"
  define q where "q = n div 2 ^ e"
  define q' where "q' = (if 2 ^ (e - 1) < n mod 2 ^ e \<or> (n mod 2 ^ e = 2 ^ (e - 1) \<and> odd q)
                         then q + 1 else q)"
  have "(2::int) ^ e \<le> 2 ^ (bit_length n - 1)"
    unfolding e_def by (rule power_increasing) simp_all
  also have "\<dots> \<le> n" using n by (rule bit_length_lower)
  finally have "2 ^ e div 2 ^ e \<le> n div (2::int) ^ e"
    by (rule zdiv_mono1) simp
  then have "1 \<le> q"
    unfolding q_def by simp
  then have "0 < q'" unfolding q'_def by simp
  then have v: "q' * 2 ^ e \<noteq> 0" by simp
  have "round_to_double n = (if 2 ^ 1024 \<le> q' * 2 ^ e then None else Some (q' * 2 ^ e))"
    using False unfolding round_to_double_def Let_def e_def q_def q'_def by (simp only: if_False)
  with v n show ?thesis by (auto split: if_splits simp del: power_numeral mult_eq_0_iff)
qed

lemma to_number_zero_iff: "to_number i = Finite 0 \<longleftrightarrow> i = 0"
proof -
  have "to_number i = Finite 0 \<longleftrightarrow> round_to_double \<bar>i\<bar> = Some 0"
    by (auto simp: to_number_def split: option.splits)
  then show ?thesis by (simp add: round_to_double_zero)
qed

lemma to_number_not_NaN: "to_number i \<noteq> NaN"
  by (simp add: to_number_def split: option.splits)

lemma parseInt_falsy:
  "parseInt v = NaN \<or> parseInt v = Finite 0
     \<longleftrightarrow> parseInt10 v = None \<or> parseInt10 v = Some 0"
  by (cases "parseInt10 v") (simp_all add: parseInt_def to_number_zero_iff to_number_not_NaN)

lemma parseInt10_undefined: "parseInt10 None = None"
  by (simp add: parseInt10_def to_string_def is_white_space_def is_line_terminator_def
        is_digit_def digit_range_def Let_def)

lemma parse_12345: "parseInt10 (Some ''12345'') = Some 12345"
  by (simp add: parseInt10_def to_string_def is_white_space_def is_line_terminator_def
        is_digit_def digit_range_def digits_value_def Let_def)

lemma parse_abc: "parseInt10 (Some ''abc'') = None"
  by (simp add: parseInt10_def to_string_def is_white_space_def is_line_terminator_def
        is_digit_def digit_range_def digits_value_def Let_def)

text \<open>
  C7. If the application identifier is unset, not a number or zero, or if the application
  secret, the target chat or the webhook URL is unset or empty, the script prints the
  error message and exits with status 1. If all four are set and truthy and the session
  variable is unset or empty, the script does not exit and goes on with the empty
  session.
\<close>

theorem startup_requires_configuration:
  "(API_ID env = None \<or> parseInt10 (API_ID env) = None \<or> parseInt10 (API_ID env) = Some 0
      \<or> API_HASH env = None \<or> API_HASH env = Some []
      \<or> TARGET_CHAT_USERNAME env = None \<or> TARGET_CHAT_USERNAME env = Some []
      \<or> DISCORD_WEBHOOK_URL env = None \<or> DISCORD_WEBHOOK_URL env = Some []
    \<longrightarrow> startup env = (None, [ConsoleError [config_error], Exit 1]))
   \<and> ((\<exists>n. parseInt10 (API_ID env) = Some n \<and> n \<noteq> 0)
        \<and> (\<exists>h. API_HASH env = Some h \<and> h \<noteq> [])
        \<and> (\<exists>t. TARGET_CHAT_USERNAME env = Some t \<and> t \<noteq> [])
        \<and> (\<exists>u. DISCORD_WEBHOOK_URL env = Some u \<and> u \<noteq> [])
        \<and> (SESSION env = None \<or> SESSION env = Some [])
    \<longrightarrow> (\<exists>cfg. startup env = (Some cfg, []) \<and> session cfg = []))"
proof (intro conjI impI)
  assume "API_ID env = None \<or> parseInt10 (API_ID env) = None \<or> parseInt10 (API_ID env) = Some 0
      \<or> API_HASH env = None \<or> API_HASH env = Some []
      \<or> TARGET_CHAT_USERNAME env = None \<or> TARGET_CHAT_USERNAME env = Some []
      \<or> DISCORD_WEBHOOK_URL env = None \<or> DISCORD_WEBHOOK_URL env = Some []"
  then have "(parseInt (API_ID env) = NaN \<or> parseInt (API_ID env) = Finite 0)
      \<or> API_HASH env = None \<or> API_HASH env = Some []
      \<or> TARGET_CHAT_USERNAME env = None \<or> TARGET_CHAT_USERNAME env = Some []
      \<or> DISCORD_WEBHOOK_URL env = None \<or> DISCORD_WEBHOOK_URL env = Some []"
    unfolding parseInt_falsy using parseInt10_undefined by auto
  then show "startup env = (None, [ConsoleError [config_error], Exit 1])"
    by (auto simp: startup_def Let_def split: option.splits)
next
  assume a: "(\<exists>n. parseInt10 (API_ID env) = Some n \<and> n \<noteq> 0)
        \<and> (\<exists>h. API_HASH env = Some h \<and> h \<noteq> [])
        \<and> (\<exists>t. TARGET_CHAT_USERNAME env = Some t \<and> t \<noteq> [])
        \<and> (\<exists>u. DISCORD_WEBHOOK_URL env = Some u \<and> u \<noteq> [])
        \<and> (SESSION env = None \<or> SESSION env = Some [])"
  then have "\<not> (parseInt (API_ID env) = NaN \<or> parseInt (API_ID env) = Finite 0)"
    unfolding parseInt_falsy by auto
  with a show "\<exists>cfg. startup env = (Some cfg, []) \<and> session cfg = []"
    by (auto simp: startup_def Let_def)
qed

text \<open>
  A missing webhook URL, an identifier that is not a number, and a complete
  configuration with an empty session.
\<close>

theorem startup_requires_configuration_witness:
  "startup \<lparr> API_ID = Some ''12345'', API_HASH = Some ''0123abcd'', SESSION = Some [],
             TARGET_CHAT_USERNAME = Some ''somechannel'',
             DISCORD_WEBHOOK_URL = None \<rparr>
     = (None, [ConsoleError [config_error], Exit 1])
   \<and> startup \<lparr> API_ID = Some ''abc'', API_HASH = Some ''0123abcd'', SESSION = Some [],
               TARGET_CHAT_USERNAME = Some ''somechannel'',
               DISCORD_WEBHOOK_URL = Some ''https://discord.example/hook'' \<rparr>
     = (None, [ConsoleError [config_error], Exit 1])
   \<and> (\<exists>cfg. startup \<lparr> API_ID = Some ''12345'', API_HASH = Some ''0123abcd'', SESSION = Some [],
                      TARGET_CHAT_USERNAME = Some ''somechannel'',
                      DISCORD_WEBHOOK_URL = Some ''https://discord.example/hook'' \<rparr>
              = (Some cfg, []) \<and> session cfg = [])"
  using startup_requires_configuration[of
          "\<lparr> API_ID = Some ''12345'', API_HASH = Some ''0123abcd'', SESSION = Some [],
             TARGET_CHAT_USERNAME = Some ''somechannel'', DISCORD_WEBHOOK_URL = None \<rparr>"]
        startup_requires_configuration[of
          "\<lparr> API_ID = Some ''abc'', API_HASH = Some ''0123abcd'', SESSION = Some [],
             TARGET_CHAT_USERNAME = Some ''somechannel'',
             DISCORD_WEBHOOK_URL = Some ''https://discord.example/hook'' \<rparr>"]
        startup_requires_configuration[of
          "\<lparr> API_ID = Some ''12345'', API_HASH = Some ''0123abcd'', SESSION = Some [],
             TARGET_CHAT_USERNAME = Some ''somechannel'',
             DISCORD_WEBHOOK_URL = Some ''https://discord.example/hook'' \<rparr>"]
        parse_12345 parse_abc
  by simp

section \<open>Properties of updateEnvFile\<close>

text \<open>The search returns the first match at the leftmost position that has one.\<close>

lemma search_first:
  assumes "match_here rx (pre @ a) b = m # ms"
    and "\<forall>a' b'. a @ b = a' @ b' \<and> length a' < length a \<longrightarrow> match_here rx (pre @ a') b' = []"
  shows "search rx pre (a @ b) = Some m"
  using assms
proof (induction a arbitrary: pre)
  case Nil
  from Nil.prems(1) show ?case by (cases b) simp_all
next
  case (Cons c a)
  have "(c # a) @ b = [] @ (c # a @ b) \<and> length ([] :: string) < length (c # a)" by simp
  with Cons.prems(2) have "match_here rx (pre @ []) (c # a @ b) = []" by blast
  then have s: "search rx pre ((c # a) @ b) = search rx (pre @ [c]) (a @ b)" by simp
  have 2: "\<forall>a' b'. a @ b = a' @ b' \<and> length a' < length a \<longrightarrow>
          match_here rx ((pre @ [c]) @ a') b' = []"
  proof (intro allI impI)
    fix a' b' assume h: "a @ b = a' @ b' \<and> length a' < length a"
    then have "(c # a) @ b = (c # a') @ b' \<and> length (c # a') < length (c # a)" by simp
    with Cons.prems(2) have "match_here rx (pre @ (c # a')) b' = []" by blast
    then show "match_here rx ((pre @ [c]) @ a') b' = []" by simp
  qed
  from Cons.prems(1) have 1: "match_here rx ((pre @ [c]) @ a) b = m # ms" by simp
  from Cons.IH[OF 1 2] have "search rx (pre @ [c]) (a @ b) = Some m" .
  with s show ?case by simp
qed


lemma m_items_rest_of_line:
  "m_items True [Rep 0 None Dot, Eol] p s =
     [(if takeWhile (\<lambda>c. \<not> is_line_terminator c) s = [] then p
       else Some (last (takeWhile (\<lambda>c. \<not> is_line_terminator c) s)),
       dropWhile (\<lambda>c. \<not> is_line_terminator c) s)]"
  by (induction s arbitrary: p) auto



lemma match_here_no_group:
  assumes "group rx = None" and "after rx = []"
  shows "match_here rx pre s =
           map (\<lambda>(q, r). \<lparr> m_pre = pre, m_whole = take (length s - length r) s,
                            m_group = None, m_post = r \<rparr>)
               (m_items (multiline rx) (before rx)
                  (if pre = [] then None else Some (last pre)) s)"
proof -
  have "concat (map (\<lambda>(p1, r1). [f r1]) xs) = map (\<lambda>(q, r). f r) xs"
    for f :: "string \<Rightarrow> rmatch" and xs :: "(char option \<times> string) list"
    by (induction xs) auto
  then show ?thesis
    unfolding match_here_def Let_def assms by simp
qed

text \<open>
  The expression of updateEnvFile matches at a position exactly when the position is at
  the start of a line and the text goes on with \<open>key=\<close>; the match then runs to the end
  of that line.
\<close>

lemma match_here_key_expression:
  "match_here (key_expression key) pre s =
     (if line_start pre \<and> prefix (key @ ''='') s
      then [\<lparr> m_pre = pre,
              m_whole = key @ ''='' @ takeWhile (\<lambda>c. \<not> is_line_terminator c)
                                        (drop (length (key @ ''='')) s),
              m_group = None,
              m_post = dropWhile (\<lambda>c. \<not> is_line_terminator c) (drop (length (key @ ''='')) s) \<rparr>]
      else [])"
proof (cases "line_start pre \<and> prefix (key @ ''='') s")
  case False
  then show ?thesis
    by (auto simp: match_here_def key_expression_def line_start_def m_items_lits Let_def
             simp del: append_assoc)
next
  case True
  let ?P = "\<lambda>c. \<not> is_line_terminator c"
  let ?K = "key @ ''=''"
  from True obtain r where s: "s = ?K @ r" by (auto simp: prefix_def)
  then have dr: "drop (length ?K) s = r" by simp
  have "length (takeWhile ?P r) + length (dropWhile ?P r) = length r"
    by (simp flip: length_append)
  then have l: "length s - length (dropWhile ?P r) = length ?K + length (takeWhile ?P r)"
    unfolding s by simp
  have t: "take (length ?K + length (takeWhile ?P r)) s = ?K @ takeWhile ?P r"
    unfolding s using takeWhile_eq_take[of ?P r] by simp
  from True have ls: "(case (if pre = [] then None else Some (last pre)) of
                         None \<Rightarrow> True | Some c \<Rightarrow> True \<and> is_line_terminator c)"
    by (auto simp: line_start_def)
  have "m_items (multiline (key_expression key)) (before (key_expression key))
          (if pre = [] then None else Some (last pre)) s
        = m_items True (lits ?K @ [Rep 0 None Dot, Eol])
            (if pre = [] then None else Some (last pre)) s"
    using ls by (simp add: key_expression_def del: append_assoc)
  also have "\<dots> = m_items True [Rep 0 None Dot, Eol] (Some CHR ''='') r"
    unfolding m_items_lits s by simp
  finally have b: "m_items (multiline (key_expression key)) (before (key_expression key))
          (if pre = [] then None else Some (last pre)) s
        = [(if takeWhile ?P r = [] then Some CHR ''='' else Some (last (takeWhile ?P r)),
            dropWhile ?P r)]"
    unfolding m_items_rest_of_line .
  have g: "group (key_expression key) = None" "after (key_expression key) = []"
    by (simp_all add: key_expression_def)
  have "match_here (key_expression key) pre s
          = [\<lparr> m_pre = pre, m_whole = take (length s - length (dropWhile ?P r)) s,
                m_group = None, m_post = dropWhile ?P r \<rparr>]"
    unfolding match_here_no_group[OF g] b by simp
  also have "\<dots> = [\<lparr> m_pre = pre, m_whole = ?K @ takeWhile ?P r,
                m_group = None, m_post = dropWhile ?P r \<rparr>]"
    unfolding l t ..
  finally show ?thesis
    using True unfolding dr by simp
qed


lemma js_match_key_expression_first:
  assumes c: "content = pre @ key @ ''='' @ body @ post"
    and ls: "line_start pre"
    and body: "\<forall>c \<in> set body. \<not> is_line_terminator c"
    and post: "post = [] \<or> is_line_terminator (hd post)"
    and first: "\<forall>a b. content = a @ b \<and> length a < length pre \<and> line_start a
                  \<longrightarrow> \<not> prefix (key @ ''='') b"
  shows "js_match content (key_expression key)
           = Some \<lparr> m_pre = pre, m_whole = key @ ''='' @ body, m_group = None, m_post = post \<rparr>"
proof -
  let ?P = "\<lambda>c. \<not> is_line_terminator c"
  let ?b = "(key @ ''='') @ body @ post"
  from post have p: "takeWhile ?P post = []" "dropWhile ?P post = post"
    by (cases post; auto)+
  from body have tw: "takeWhile ?P (body @ post) = body"
    by (simp add: takeWhile_append2 p)
  from body have dw: "dropWhile ?P (body @ post) = post"
    by (simp add: dropWhile_append2 p)
  have 1: "match_here (key_expression key) ([] @ pre) ?b
             = \<lparr> m_pre = pre, m_whole = key @ ''='' @ body, m_group = None, m_post = post \<rparr> # []"
    unfolding match_here_key_expression using ls by (simp add: tw dw)
  have 2: "\<forall>a' b'. pre @ ?b = a' @ b' \<and> length a' < length pre
             \<longrightarrow> match_here (key_expression key) ([] @ a') b' = []"
  proof (intro allI impI)
    fix a' b' assume h: "pre @ ?b = a' @ b' \<and> length a' < length pre"
    with c have "content = a' @ b' \<and> length a' < length pre" by simp
    with first have "line_start a' \<longrightarrow> \<not> prefix (key @ ''='') b'" by blast
    then show "match_here (key_expression key) ([] @ a') b' = []"
      unfolding match_here_key_expression by auto
  qed
  from search_first[OF 1 2] show ?thesis
    unfolding js_match_def c by simp
qed

lemma js_match_key_expression_None:
  assumes "\<forall>a b. content = a @ b \<and> line_start a \<longrightarrow> \<not> prefix (key @ ''='') b"
  shows "js_match content (key_expression key) = None"
  unfolding js_match_def search_None_iff match_here_key_expression using assms by auto

lemma get_substitution_no_dollar:
  "CHR ''$'' \<notin> set t \<Longrightarrow> get_substitution m t = t"
  by (induction m t rule: get_substitution.induct) auto

lemma plain_key_no_dollar: "plain_key key \<Longrightarrow> CHR ''$'' \<notin> set key"
  by (auto simp: plain_key_def syntax_characters_def list_all_iff)

text \<open>
  For a key without syntax characters, the first line that starts with \<open>key=\<close> is the
  only part of the content that updateEnvFile rewrites, whatever the value: the text
  before it and the text after it, later lines with the same key among it, stay as they
  are.
\<close>

lemma update_content_first_line:
  assumes "plain_key key"
    and "content = pre @ key @ ''='' @ body @ post"
    and "line_start pre"
    and "\<forall>c \<in> set body. \<not> is_line_terminator c"
    and "post = [] \<or> is_line_terminator (hd post)"
    and "\<forall>a b. content = a @ b \<and> length a < length pre \<and> line_start a
                  \<longrightarrow> \<not> prefix (key @ ''='') b"
  shows "update_content key val content =
           Some (pre @ get_substitution
                   \<lparr> m_pre = pre, m_whole = key @ ''='' @ body, m_group = None, m_post = post \<rparr>
                   (key @ ''='' @ val) @ post)"
  using js_match_key_expression_first[OF assms(2-6)] assms(1)
  by (simp add: update_content_def keyRegex_def js_test_def js_replace_def)

text \<open>For a value without a dollar sign, that line becomes \<open>key=value\<close>.\<close>

lemma update_content_replaces:
  assumes "plain_key key" and "CHR ''$'' \<notin> set val"
    and "content = pre @ key @ ''='' @ body @ post"
    and "line_start pre"
    and "\<forall>c \<in> set body. \<not> is_line_terminator c"
    and "post = [] \<or> is_line_terminator (hd post)"
    and "\<forall>a b. content = a @ b \<and> length a < length pre \<and> line_start a
                  \<longrightarrow> \<not> prefix (key @ ''='') b"
  shows "update_content key val content = Some (pre @ key @ ''='' @ val @ post)"
proof -
  from assms(1,2) have "CHR ''$'' \<notin> set (key @ ''='' @ val)"
    by (auto dest: plain_key_no_dollar)
  then have "get_substitution
               \<lparr> m_pre = pre, m_whole = key @ ''='' @ body, m_group = None, m_post = post \<rparr>
               (key @ ''='' @ val) = key @ ''='' @ val"
    by (rule get_substitution_no_dollar)
  then show ?thesis
    unfolding update_content_first_line[OF assms(1) assms(3-7)] by simp
qed

text \<open>
  For a key without syntax characters and a content without such a line, a line feed and
  \<open>key=value\<close> are appended, whatever the value.
\<close>

lemma update_content_appends:
  assumes "plain_key key"
    and "\<forall>a b. content = a @ b \<and> line_start a \<longrightarrow> \<not> prefix (key @ ''='') b"
  shows "update_content key val content = Some (content @ [CHR 0x0A] @ key @ ''='' @ val)"
  using js_match_key_expression_None[OF assms(2)] assms(1)
  by (simp add: update_content_def keyRegex_def js_test_def)

text \<open>
  C6. updateEnvFile on a file that holds the line \<open>SESSION=old\<close>, with the value \<open>1$&\<close>:
  the replacement text is read as a pattern, \<open>$&\<close> stands for the matched line, and the
  file written holds \<open>SESSION=1SESSION=old\<close>, not \<open>SESSION=1$&\<close>.
\<close>

theorem updateEnvFile_dollar_in_value:
  "updateEnvFile ''SESSION'' ''1$&'' (Some ''SESSION=old'') True
     = Some [ReadFile ''.env'', WriteFile ''.env'' ''SESSION=1SESSION=old'',
             ConsoleLog [''Successfully updated SESSION in .env file.'']]
   \<and> ''SESSION=1SESSION=old'' \<noteq> ''SESSION='' @ ''1$&''"
  by code_simp

text \<open>
  C10. updateEnvFile on a file that holds the two lines \<open>SESSION=a\<close> and \<open>SESSION=b\<close>, with
  the value \<open>$&\<close>: the second line is left as it is, and the first line becomes
  \<open>SESSION=SESSION=a\<close>, not \<open>SESSION=$&\<close>.
\<close>

theorem updateEnvFile_duplicate_dollar:
  "updateEnvFile ''SESSION'' ''$&'' (Some (''SESSION=a'' @ [CHR 0x0A] @ ''SESSION=b'')) True
     = Some [ReadFile ''.env'',
             WriteFile ''.env'' (''SESSION=SESSION=a'' @ [CHR 0x0A] @ ''SESSION=b''),
             ConsoleLog [''Successfully updated SESSION in .env file.'']]
   \<and> ''SESSION=SESSION=a'' \<noteq> ''SESSION='' @ ''$&''"
  by code_simp

end
